theory Spec2Isabelle
  imports Complex_Main "HOL-Library.Sublist"
begin

section \<open>Python values\<close>

text \<open>
  A Python \<open>str\<close> is a sequence of Unicode code points and \<open>len\<close> counts code points, so
  a string is modelled as the list of its code points. ASCII literals are written through
  \<open>ascii\<close>; the Korean literals of the source are written out as code points.
\<close>

type_synonym pystr = "nat list"

definition ascii :: "string \<Rightarrow> pystr" where
  "ascii s = map of_char s"

text \<open>
  The code points for which \<open>str.isspace\<close> holds: the characters that \<open>str.strip()\<close>
  removes when called without an argument.
\<close>

definition isspace :: "nat \<Rightarrow> bool" where
  "isspace c \<longleftrightarrow>
     (9 \<le> c \<and> c \<le> 13) \<or> (28 \<le> c \<and> c \<le> 32) \<or> c = 133 \<or> c = 160 \<or> c = 5760 \<or>
     (8192 \<le> c \<and> c \<le> 8202) \<or> c = 8232 \<or> c = 8233 \<or> c = 8239 \<or> c = 8287 \<or> c = 12288"

definition strip :: "pystr \<Rightarrow> pystr" where
  "strip s = rev (dropWhile isspace (rev (dropWhile isspace s)))"

text \<open>
  Slicing \<open>s[i:j]\<close>: a negative index counts from the end, and both indices are clipped
  to the range of the string. An empty range gives the empty string.
\<close>

definition adjust :: "nat \<Rightarrow> int \<Rightarrow> nat" where
  "adjust n i = (if i < 0 then nat (max 0 (int n + i)) else min (nat i) n)"

definition slice :: "'a list \<Rightarrow> int \<Rightarrow> int \<Rightarrow> 'a list" where
  "slice s i j = drop (adjust (length s) i) (take (adjust (length s) j) s)"

text \<open>
  \<open>occurs_at sub s i\<close>: \<open>sub\<close> is found in \<open>s\<close> at index \<open>i\<close>.
  \<open>rfind_down\<close> tries the indices \<open>hi, hi - 1, \<dots>, lo\<close> and answers the first hit, or
  \<open>-1\<close>. \<open>rfind\<close> is \<open>str.rfind(sub, start, end)\<close>: the highest index at which \<open>sub\<close> lies
  inside \<open>s[start:end]\<close>, with the indices adjusted as CPython adjusts them.
\<close>

definition occurs_at :: "'a list \<Rightarrow> 'a list \<Rightarrow> nat \<Rightarrow> bool" where
  "occurs_at sub s i \<longleftrightarrow> take (length sub) (drop i s) = sub"

fun rfind_down :: "'a list \<Rightarrow> 'a list \<Rightarrow> nat \<Rightarrow> nat \<Rightarrow> int" where
  "rfind_down s sub lo 0 = (if lo = 0 \<and> occurs_at sub s 0 then 0 else -1)"
| "rfind_down s sub lo (Suc h) =
     (if Suc h < lo then -1
      else if occurs_at sub s (Suc h) then int (Suc h)
      else rfind_down s sub lo h)"

definition rfind :: "'a list \<Rightarrow> 'a list \<Rightarrow> int \<Rightarrow> int \<Rightarrow> int" where
  "rfind s sub start end =
     (let n = int (length s);
          e = (if end > n then n else if end < 0 then max 0 (end + n) else end);
          a = (if start < 0 then max 0 (start + n) else start);
          m = int (length sub)
      in if e - a < m then -1 else rfind_down s sub (nat a) (nat (e - m)))"

section \<open>document_processor.py\<close>

record DocumentProcessor =
  chunk_size :: int
  chunk_overlap :: int

text \<open>\<open>DocumentProcessor.__init__\<close> stores its two arguments and checks nothing.\<close>

definition DocumentProcessor_init :: "int \<Rightarrow> int \<Rightarrow> DocumentProcessor" where
  "DocumentProcessor_init csize coverlap = \<lparr>chunk_size = csize, chunk_overlap = coverlap\<rparr>"

text \<open>
  The delimiters of \<open>chunk_text\<close>, in the order the source tries them:
  two newlines, a newline, full stop and space, the ideographic full stop,
  exclamation mark and space, question mark and space.
\<close>

definition delimiters :: "pystr list" where
  "delimiters = [[10, 10], [10], [46, 32], [12290], [33, 32], [63, 32]]"

text \<open>
  The inner \<open>for delimiter in [...]\<close> loop: the first delimiter found in
  \<open>text[start:end]\<close> moves \<open>end\<close> to just after its last occurrence and leaves the loop.
\<close>

fun snap_end :: "pystr \<Rightarrow> int \<Rightarrow> int \<Rightarrow> pystr list \<Rightarrow> int" where
  "snap_end text start end [] = end"
| "snap_end text start end (delimiter # ds) =
     (let pos = rfind text delimiter start end
      in if pos \<noteq> -1 then pos + int (length delimiter)
         else snap_end text start end ds)"

text \<open>
  One pass through the body of the \<open>while\<close> loop, from the value of \<open>start\<close> and the
  chunks collected so far to their values at the end of the pass.
\<close>

definition window_end :: "DocumentProcessor \<Rightarrow> pystr \<Rightarrow> int \<Rightarrow> int" where
  "window_end self text start =
     (let end = start + chunk_size self
      in if end < int (length text) then snap_end text start end delimiters else end)"

definition chunk_step :: "DocumentProcessor \<Rightarrow> pystr \<Rightarrow> int \<times> pystr list \<Rightarrow> int \<times> pystr list" where
  "chunk_step self text st =
     (let start = fst st; chunks = snd st;
          end = window_end self text start;
          chunk = strip (slice text start end);
          chunks = (if chunk \<noteq> [] then chunks @ [chunk] else chunks)
      in (if end < int (length text) then end - chunk_overlap self else end, chunks))"

text \<open>
  The \<open>while start < text_length\<close> loop. It need not terminate, so the loop is a partial
  function: \<open>None\<close> is a run that never returns. \<open>starts\<close> is a ghost variable: it records
  the value of \<open>start\<close> at the head of every pass and decides nothing.
\<close>

partial_function (option) chunk_loop ::
  "DocumentProcessor \<Rightarrow> pystr \<Rightarrow> int \<times> pystr list \<Rightarrow> int list \<Rightarrow> (pystr list \<times> int list) option" where
  "chunk_loop self text st starts =
     (if fst st < int (length text)
      then chunk_loop self text (chunk_step self text st) (starts @ [fst st])
      else Some (snd st, starts))"

declare chunk_loop.simps [code]

definition chunk_trace :: "DocumentProcessor \<Rightarrow> pystr \<Rightarrow> (pystr list \<times> int list) option" where
  "chunk_trace self text = (if text = [] then Some ([], []) else chunk_loop self text (0, []) [])"

definition chunk_text :: "DocumentProcessor \<Rightarrow> pystr \<Rightarrow> pystr list option" where
  "chunk_text self text = map_option fst (chunk_trace self text)"

section \<open>vector_store.py\<close>

text \<open>
  The exceptions the modelled code can meet: \<open>ValueError\<close> (a \<open>range\<close> with step 0),
  \<open>IndexError\<close> (a list read out of range) and \<open>ExternalError\<close>, which stands for any
  exception raised inside an external service (the embedding provider, the chat model,
  the vector index, the OCR reader).
\<close>

datatype pyexc = ValueError | IndexError | ExternalError

text \<open>
  A Python \<open>float\<close> is modelled by the rational number it denotes; no property below
  depends on the rounding of float arithmetic. A metadata value is a string or an integer,
  the two kinds this repository writes; a metadata dict is an association list.
\<close>

type_synonym embedding = "rat list"

datatype pyval = PyStr pystr | PyInt int

type_synonym metadata = "(pystr \<times> pyval) list"

definition dict_get :: "metadata \<Rightarrow> pystr \<Rightarrow> pyval \<Rightarrow> pyval" where
  "dict_get m k dflt = (case map_of m k of None \<Rightarrow> dflt | Some v \<Rightarrow> v)"

text \<open>\<open>range(start, stop, step)\<close>: a step of 0 raises \<open>ValueError\<close>.\<close>

function range_up :: "int \<Rightarrow> int \<Rightarrow> int \<Rightarrow> int list" where
  "range_up i stop step = (if 0 < step \<and> i < stop then i # range_up (i + step) stop step else [])"
  by pat_completeness auto
termination
  by (relation "measure (\<lambda>(i, stop, step). nat (stop - i))") auto

function range_down :: "int \<Rightarrow> int \<Rightarrow> int \<Rightarrow> int list" where
  "range_down i stop step = (if step < 0 \<and> stop < i then i # range_down (i + step) stop step else [])"
  by pat_completeness auto
termination
  by (relation "measure (\<lambda>(i, stop, step). nat (i - stop))") auto

declare range_up.simps [simp del] range_down.simps [simp del]

definition py_range :: "int \<Rightarrow> int \<Rightarrow> int \<Rightarrow> pyexc + int list" where
  "py_range start stop step =
     (if step = 0 then Inl ValueError
      else if 0 < step then Inr (range_up start stop step)
      else Inr (range_down start stop step))"

text \<open>
  The documents handed to \<open>add_documents\<close> (dicts with the keys \<open>id\<close>, \<open>text\<close>,
  \<open>metadata\<close>), the keyword arguments of one \<open>collection.add\<close> call, and a stored item.
\<close>

record document =
  d_id :: pystr
  d_text :: pystr
  d_metadata :: metadata

record add_request =
  req_ids :: "pystr list"
  req_documents :: "pystr list"
  req_embeddings :: "embedding list"
  req_metadatas :: "metadata list"

record row =
  row_id :: pystr
  row_text :: pystr
  row_embedding :: embedding
  row_metadata :: metadata

text \<open>
  \<open>get_embedding\<close>. The parameter \<open>create\<close> is the embedding provider's answer to one
  request: the list \<open>[item.embedding for item in response.data]\<close>, or an exception.
  Any exception, also the \<open>IndexError\<close> of \<open>response.data[0]\<close>, gives the empty vector.
\<close>

definition get_embedding :: "(pystr list \<Rightarrow> pyexc + embedding list) \<Rightarrow> pystr \<Rightarrow> embedding" where
  "get_embedding create text =
     (case create [text] of
        Inl e \<Rightarrow> []
      | Inr data \<Rightarrow> (case data of [] \<Rightarrow> [] | item # rest \<Rightarrow> item))"

text \<open>
  \<open>get_embeddings_batch\<close>. The provider may fail on one request and answer the next, so
  \<open>create k batch\<close> is its answer to the \<open>k\<close>-th request of this call (counted from 0).
\<close>

definition embed_pass ::
  "(nat \<Rightarrow> pystr list \<Rightarrow> pyexc + embedding list) \<Rightarrow> pystr list \<Rightarrow> int \<Rightarrow>
   nat \<times> embedding list \<Rightarrow> int \<Rightarrow> nat \<times> embedding list" where
  "embed_pass create texts batch_size st i =
     (let batch = slice texts i (i + batch_size)
      in (Suc (fst st),
          snd st @ (case create (fst st) batch of
                      Inr batch_embeddings \<Rightarrow> batch_embeddings
                    | Inl e \<Rightarrow> map (\<lambda>_. []) batch)))"

definition get_embeddings_batch ::
  "(nat \<Rightarrow> pystr list \<Rightarrow> pyexc + embedding list) \<Rightarrow> pystr list \<Rightarrow> int \<Rightarrow>
   pyexc + embedding list" where
  "get_embeddings_batch create texts batch_size =
     (case py_range 0 (int (length texts)) batch_size of
        Inl e \<Rightarrow> Inl e
      | Inr indices \<Rightarrow> Inr (snd (foldl (embed_pass create texts batch_size) (0, []) indices)))"

text \<open>
  \<open>add_documents\<close>. The vector index is external: \<open>coll_add collection request\<close> is the
  collection after one \<open>collection.add\<close> call, or the exception the call raises. The
  \<open>try\<close> encloses the whole \<open>for\<close> loop, so the first exception ends the loop and the
  method returns with what was written before.
\<close>

fun add_loop ::
  "(row list \<Rightarrow> add_request \<Rightarrow> pyexc + row list) \<Rightarrow> pystr list \<Rightarrow> pystr list \<Rightarrow>
   embedding list \<Rightarrow> metadata list \<Rightarrow> int \<Rightarrow> row list \<Rightarrow> int list \<Rightarrow> row list" where
  "add_loop coll_add ids texts embeddings metadatas batch_size collection [] = collection"
| "add_loop coll_add ids texts embeddings metadatas batch_size collection (i # rest) =
     (case coll_add collection
             \<lparr>req_ids = slice ids i (i + batch_size),
              req_documents = slice texts i (i + batch_size),
              req_embeddings = slice embeddings i (i + batch_size),
              req_metadatas = slice metadatas i (i + batch_size)\<rparr> of
        Inl e \<Rightarrow> collection
      | Inr collection' \<Rightarrow>
          add_loop coll_add ids texts embeddings metadatas batch_size collection' rest)"

definition add_documents ::
  "(nat \<Rightarrow> pystr list \<Rightarrow> pyexc + embedding list) \<Rightarrow>
   (row list \<Rightarrow> add_request \<Rightarrow> pyexc + row list) \<Rightarrow>
   row list \<Rightarrow> document list \<Rightarrow> int \<Rightarrow> pyexc + row list" where
  "add_documents create coll_add collection documents batch_size =
     (if documents = [] then Inr collection
      else
        let texts = map d_text documents;
            ids = map d_id documents;
            metadatas = map d_metadata documents
        in case get_embeddings_batch create texts batch_size of
             Inl e \<Rightarrow> Inl e
           | Inr embeddings \<Rightarrow>
               (case py_range 0 (int (length documents)) batch_size of
                  Inl e \<Rightarrow> Inr collection
                | Inr indices \<Rightarrow>
                    Inr (add_loop coll_add ids texts embeddings metadatas batch_size
                           collection indices)))"

text \<open>
  The answer of \<open>collection.query\<close>: under each key \<open>None\<close> or one list per query
  embedding. \<open>search\<close> keeps the list of the first (and only) query embedding.
\<close>

record query_result =
  res_documents :: "pystr list list option"
  res_metadatas :: "metadata list list option"
  res_distances :: "rat list list option"

record search_result =
  sr_documents :: "pystr list"
  sr_metadatas :: "metadata list"
  sr_distances :: "rat list"

text \<open>\<open>x[0] if x else []\<close>: \<open>None\<close> and the empty list are both false.\<close>

definition first_or_empty :: "'a list list option \<Rightarrow> 'a list" where
  "first_or_empty x = (case x of None \<Rightarrow> [] | Some [] \<Rightarrow> [] | Some (l # rest) \<Rightarrow> l)"

definition empty_search :: search_result where
  "empty_search = \<lparr>sr_documents = [], sr_metadatas = [], sr_distances = []\<rparr>"

definition search ::
  "(pystr list \<Rightarrow> pyexc + embedding list) \<Rightarrow>
   (row list \<Rightarrow> embedding list \<Rightarrow> int \<Rightarrow> pyexc + query_result) \<Rightarrow>
   row list \<Rightarrow> pystr \<Rightarrow> int \<Rightarrow> search_result" where
  "search create coll_query collection query n_results =
     (let query_embedding = get_embedding create query
      in if query_embedding = [] then empty_search
         else case coll_query collection [query_embedding] n_results of
                Inl e \<Rightarrow> empty_search
              | Inr results \<Rightarrow>
                  \<lparr>sr_documents = first_or_empty (res_documents results),
                   sr_metadatas = first_or_empty (res_metadatas results),
                   sr_distances = first_or_empty (res_distances results)\<rparr>)"

section \<open>rag_engine.py\<close>

record retrieved =
  r_text :: pystr
  r_metadata :: metadata
  r_score :: rat

text \<open>
  The \<open>for i, doc in enumerate(results['documents'])\<close> loop of
  \<open>retrieve_relevant_documents\<close>: \<open>results['metadatas'][i]\<close> and
  \<open>results['distances'][i]\<close> raise \<open>IndexError\<close> when the list is too short.
\<close>

fun retrieve_loop ::
  "search_result \<Rightarrow> nat \<Rightarrow> pystr list \<Rightarrow> retrieved list \<Rightarrow> pyexc + retrieved list" where
  "retrieve_loop results i [] documents = Inr documents"
| "retrieve_loop results i (doc # rest) documents =
     (if i < length (sr_metadatas results) then
        if i < length (sr_distances results) then
          retrieve_loop results (Suc i) rest
            (documents @ [\<lparr>r_text = doc,
                            r_metadata = sr_metadatas results ! i,
                            r_score = 1 - sr_distances results ! i\<rparr>])
        else Inl IndexError
      else Inl IndexError)"

definition retrieve_relevant_documents ::
  "(pystr list \<Rightarrow> pyexc + embedding list) \<Rightarrow>
   (row list \<Rightarrow> embedding list \<Rightarrow> int \<Rightarrow> pyexc + query_result) \<Rightarrow>
   row list \<Rightarrow> pystr \<Rightarrow> int \<Rightarrow> pyexc + retrieved list" where
  "retrieve_relevant_documents create coll_query collection query top_k =
     (let results = search create coll_query collection query top_k
      in retrieve_loop results 0 (sr_documents results) [])"

text \<open>\<open>str(n)\<close> for an integer: its decimal digits, with a minus sign when negative.\<close>

function str_nat :: "nat \<Rightarrow> pystr" where
  "str_nat n = (if n < 10 then [48 + n] else str_nat (n div 10) @ [48 + n mod 10])"
  by pat_completeness auto
termination
  by (relation "measure id") auto

declare str_nat.simps [simp del]

definition str_int :: "int \<Rightarrow> pystr" where
  "str_int i = (if i < 0 then 45 # str_nat (nat (- i)) else str_nat (nat i))"

text \<open>How an f-string renders a metadata value.\<close>

fun format_val :: "pyval \<Rightarrow> pystr" where
  "format_val (PyStr s) = s"
| "format_val (PyInt i) = str_int i"

text \<open>
  \<open>round(x, 3)\<close>: the nearest multiple of \<open>1/1000\<close>, a tie going to the even one.
\<close>

definition py_round3 :: "rat \<Rightarrow> rat" where
  "py_round3 x =
     (let y = x * 1000; f = \<lfloor>y\<rfloor>; r = y - of_int f
      in of_int (if r < 1 / 2 then f else if 1 / 2 < r then f + 1
                 else if even f then f else f + 1) / 1000)"

text \<open>
  One entry of \<open>context_parts\<close>: the header \<open>[\<dots> i+1: file_name]\<close> (with the image mark
  for an OCR item), a newline, the text, a newline.
\<close>

definition context_item :: "nat \<Rightarrow> retrieved \<Rightarrow> pystr" where
  "context_item i doc =
     (let file_name = dict_get (r_metadata doc) (ascii ''file_name'') (PyStr (ascii ''Unknown''));
          doc_type = dict_get (r_metadata doc) (ascii ''type'') (PyStr (ascii ''text''))
      in if doc_type = PyStr (ascii ''ocr'')
         then [91, 47928, 49436, 32] @ str_nat (i + 1) @ ascii '': '' @ format_val file_name @
              [32, 40, 51060, 48120, 51648, 32, 45236, 50857, 41, 93, 10] @ r_text doc @ [10]
         else [91, 47928, 49436, 32] @ str_nat (i + 1) @ ascii '': '' @ format_val file_name @
              [93, 10] @ r_text doc @ [10])"

text \<open>
  The loop of \<open>_build_context\<close>: the first entry that would take the running length over
  \<open>max_length\<close> ends it. \<open>context_parts\<close> is the list the loop leaves.
\<close>

fun build_loop :: "int \<Rightarrow> nat \<Rightarrow> retrieved list \<Rightarrow> pystr list \<Rightarrow> int \<Rightarrow> pystr list" where
  "build_loop max_length i [] context_parts current_length = context_parts"
| "build_loop max_length i (doc # rest) context_parts current_length =
     (if current_length + int (length (context_item i doc)) > max_length then context_parts
      else build_loop max_length (Suc i) rest (context_parts @ [context_item i doc])
             (current_length + int (length (context_item i doc))))"

definition context_parts :: "retrieved list \<Rightarrow> int \<Rightarrow> pystr list" where
  "context_parts documents max_length = build_loop max_length 0 documents [] 0"

fun join :: "pystr \<Rightarrow> pystr list \<Rightarrow> pystr" where
  "join sep [] = []"
| "join sep [x] = x"
| "join sep (x # y # ys) = x @ sep @ join sep (y # ys)"

definition build_context :: "retrieved list \<Rightarrow> int \<Rightarrow> pystr" where
  "build_context documents max_length = join [10] (context_parts documents max_length)"

text \<open>The source entries of \<open>generate_answer\<close>, and its loop that keeps the first of equals.\<close>

record source_info =
  s_file_name :: pyval
  s_type :: pyval
  s_score :: rat

definition source_of :: "retrieved \<Rightarrow> source_info" where
  "source_of doc =
     \<lparr>s_file_name = dict_get (r_metadata doc) (ascii ''file_name'') (PyStr (ascii ''Unknown'')),
      s_type = dict_get (r_metadata doc) (ascii ''type'') (PyStr (ascii ''unknown'')),
      s_score = py_round3 (r_score doc)\<rparr>"

fun sources_loop :: "retrieved list \<Rightarrow> source_info list \<Rightarrow> source_info list" where
  "sources_loop [] sources = sources"
| "sources_loop (doc # rest) sources =
     (if source_of doc \<notin> set sources then sources_loop rest (sources @ [source_of doc])
      else sources_loop rest sources)"

definition system_prompt :: pystr where
  "system_prompt =
     [45817, 49888, 51008, 32, 49324, 45236, 32, 51648, 49885, 47928, 49436, 47484, 32, 44592,
      48152, 51004, 47196, 32, 45813, 48320, 54616, 45716, 32, 51204, 47928, 32, 65, 73, 32,
      50612, 49884, 49828, 53556, 53944, 51077, 45768, 45796, 46, 10, 10, 45796, 51020, 32,
      44508, 52825, 51012, 32, 46384, 46972, 51452, 49464, 50836, 58, 10, 49, 46, 32, 51228,
      44277, 46108, 32, 47928, 49436, 32, 45236, 50857, 51012, 32, 44592, 48152, 51004, 47196,
      47564, 32, 45813, 48320, 54616, 49464, 50836, 46, 10, 50, 46, 32, 47928, 49436, 50640, 32,
      50630, 45716, 32, 45236, 50857, 51008, 32, 52628, 52769, 54616, 51648, 32, 47568, 44256,
      32, 34, 51228, 44277, 46108, 32, 47928, 49436, 50640, 49436, 32, 54644, 45817, 32, 51221,
      48372, 47484, 32, 52286, 51012, 32, 49688, 32, 50630, 49845, 45768, 45796, 34, 46972,
      44256, 32, 45813, 54616, 49464, 50836, 46, 10, 51, 46, 32, 45813, 48320, 51008, 32, 47749,
      54869, 54616, 44256, 32, 44396, 51312, 54868, 46104, 44172, 32, 51089, 49457, 54616,
      49464, 50836, 46, 10, 52, 46, 32, 44032, 45733, 54620, 32, 44221, 50864, 32, 52636, 52376,
      32, 47928, 49436, 47484, 32, 50616, 44553, 54616, 49464, 50836, 46, 10, 53, 46, 32, 54620,
      44397, 50612, 47196, 32, 45813, 48320, 54616, 49464, 50836, 46]"

definition user_prompt :: "pystr \<Rightarrow> pystr \<Rightarrow> pystr" where
  "user_prompt context query =
     [45796, 51020, 51008, 32, 49324, 45236, 32, 51648, 49885, 47928, 49436, 50640, 49436, 32,
      44160, 49353, 46108, 32, 44288, 47144, 32, 45236, 50857, 51077, 45768, 45796, 58, 10, 10]
     @ context @ [10, 10, 51656, 47928, 58, 32] @ query @
     [10, 10, 50948, 32, 47928, 49436, 32, 45236, 50857, 51012, 32, 48148, 53461, 51004, 47196,
      32, 51656, 47928, 50640, 32, 45813, 48320, 54644, 51452, 49464, 50836, 46]"

definition error_answer :: pystr where
  "error_answer =
     [51396, 49569, 54633, 45768, 45796, 46, 32, 45813, 48320, 32, 49373, 49457, 32, 51473, 32,
      50724, 47448, 44032, 32, 48156, 49373, 54664, 49845, 45768, 45796, 46]"

definition no_documents_answer :: pystr where
  "no_documents_answer =
     [44288, 47144, 46108, 32, 47928, 49436, 47484, 32, 52286, 51012, 32, 49688, 32, 50630,
      49845, 45768, 45796, 46, 32, 45796, 47480, 32, 51656, 47928, 51012, 32, 49884, 46020,
      54644, 48372, 49464, 50836, 46]"

record answer =
  a_answer :: pystr
  a_sources :: "source_info list"

text \<open>
  \<open>generate_answer\<close>. \<open>chat system user max_tokens\<close> is the chat model's reply
  (\<open>response.choices[0].message.content\<close>) or an exception; \<open>_build_context\<close> is called
  with its default \<open>max_length\<close> of 4000.
\<close>

definition generate_answer ::
  "(pystr \<Rightarrow> pystr \<Rightarrow> int \<Rightarrow> pyexc + pystr) \<Rightarrow> pystr \<Rightarrow> retrieved list \<Rightarrow> int \<Rightarrow> answer" where
  "generate_answer chat query context_documents max_tokens =
     (let context = build_context context_documents 4000
      in case chat system_prompt (user_prompt context query) max_tokens of
           Inl e \<Rightarrow> \<lparr>a_answer = error_answer, a_sources = []\<rparr>
         | Inr reply \<Rightarrow> \<lparr>a_answer = reply, a_sources = sources_loop context_documents []\<rparr>)"

record rag_result =
  q_query :: pystr
  q_answer :: pystr
  q_sources :: "source_info list"
  q_retrieved_docs :: "retrieved list"

text \<open>\<open>RAGEngine.query\<close>; an \<open>IndexError\<close> of the retrieval is not caught here.\<close>

definition RAGEngine_query ::
  "(pystr list \<Rightarrow> pyexc + embedding list) \<Rightarrow>
   (row list \<Rightarrow> embedding list \<Rightarrow> int \<Rightarrow> pyexc + query_result) \<Rightarrow>
   (pystr \<Rightarrow> pystr \<Rightarrow> int \<Rightarrow> pyexc + pystr) \<Rightarrow>
   row list \<Rightarrow> pystr \<Rightarrow> int \<Rightarrow> int \<Rightarrow> pyexc + rag_result" where
  "RAGEngine_query create coll_query chat collection query top_k max_tokens =
     (case retrieve_relevant_documents create coll_query collection query top_k of
        Inl e \<Rightarrow> Inl e
      | Inr retrieved_docs \<Rightarrow>
          if retrieved_docs = [] then
            Inr \<lparr>q_query = query, q_answer = no_documents_answer, q_sources = [],
                 q_retrieved_docs = []\<rparr>
          else
            let result = generate_answer chat query retrieved_docs max_tokens
            in Inr \<lparr>q_query = query, q_answer = a_answer result, q_sources = a_sources result,
                    q_retrieved_docs = slice retrieved_docs 0 3\<rparr>)"

section \<open>chatbot.py\<close>

text \<open>
  \<open>pathlib\<close>, for POSIX paths: the components of a path (empty components and \<open>.\<close>
  dropped), \<open>Path(p).name\<close>, \<open>Path(p).stem\<close> and \<open>Path(p).parent.name\<close>.
\<close>

fun split_path :: "pystr \<Rightarrow> pystr \<Rightarrow> pystr list" where
  "split_path cur [] = [cur]"
| "split_path cur (c # cs) = (if c = 47 then cur # split_path [] cs else split_path (cur @ [c]) cs)"

definition path_parts :: "pystr \<Rightarrow> pystr list" where
  "path_parts p = filter (\<lambda>part. part \<noteq> [] \<and> part \<noteq> [46]) (split_path [] p)"

definition path_name :: "pystr \<Rightarrow> pystr" where
  "path_name p = (if path_parts p = [] then [] else last (path_parts p))"

definition path_stem :: "pystr \<Rightarrow> pystr" where
  "path_stem p =
     (let name = path_name p; i = rfind name [46] 0 (int (length name))
      in if 0 < i \<and> i < int (length name) - 1 then slice name 0 i else name)"


text \<open>
  \<open>process_document\<close> and \<open>process_documents_batch\<close> of \<open>document_processor.py\<close>. Reading
  a \<open>.docx\<close> file is external: \<open>extract_text path\<close> and \<open>extract_images path\<close> are what
  \<open>extract_text_from_docx\<close> and \<open>extract_images_from_docx\<close> return for the file, and
  \<open>docx_files\<close> is what \<open>glob('*.docx')\<close> lists.
\<close>

record processed =
  pd_file_path :: pystr
  pd_file_name :: pystr
  pd_text :: pystr
  pd_chunks :: "pystr list"
  pd_images :: "pystr list"




text \<open>
  Step 2 of \<open>index_documents\<close>: one item per chunk, with the id
  \<open>f"{Path(doc['file_name']).stem}_chunk_{i}"\<close>.
\<close>

definition chunk_id :: "pystr \<Rightarrow> nat \<Rightarrow> pystr" where
  "chunk_id stem i = stem @ ascii ''_chunk_'' @ str_nat i"

fun chunk_items :: "processed \<Rightarrow> nat \<Rightarrow> pystr list \<Rightarrow> document list" where
  "chunk_items doc i [] = []"
| "chunk_items doc i (chunk # rest) =
     \<lparr>d_id = chunk_id (path_stem (pd_file_name doc)) i,
      d_text = chunk,
      d_metadata = [(ascii ''file_name'', PyStr (pd_file_name doc)),
                    (ascii ''file_path'', PyStr (pd_file_path doc)),
                    (ascii ''chunk_index'', PyInt (int i)),
                    (ascii ''type'', PyStr (ascii ''text''))]\<rparr>
     # chunk_items doc (Suc i) rest"

definition text_documents :: "processed list \<Rightarrow> document list" where
  "text_documents processed_docs =
     concat (map (\<lambda>doc. chunk_items doc 0 (pd_chunks doc)) processed_docs)"





section \<open>Inputs and stand-ins for running the model\<close>

text \<open>
  A document text of the shape the parser produces (paragraphs joined by two newlines):
  a first paragraph of 98 characters and a second one of 500.
\<close>

definition stuck_text :: pystr where
  "stuck_text = replicate 98 97 @ [10, 10] @ replicate 500 98"

text \<open>A text holds no delimiter when none of the six delimiter strings occurs in it.\<close>

definition no_delimiter :: "pystr \<Rightarrow> bool" where
  "no_delimiter text \<longleftrightarrow> list_all (\<lambda>d. \<not> sublist d text) delimiters"

text \<open>The three windows \<open>text[0:500]\<close>, \<open>text[400:900]\<close>, \<open>text[800:1200]\<close>.\<close>

definition windows_1200 :: "pystr \<Rightarrow> pystr list" where
  "windows_1200 text = [slice text 0 500, slice text 400 900, slice text 800 1200]"

text \<open>A paragraph of 1200 characters: a letter, 1198 spaces, a letter.\<close>

definition sparse_text :: pystr where
  "sparse_text = 97 # replicate 1198 32 @ [98]"

text \<open>
  The embedding provider's contract: an answered request carries one vector per input text.
\<close>

definition answers_aligned :: "(nat \<Rightarrow> pystr list \<Rightarrow> pyexc + embedding list) \<Rightarrow> bool" where
  "answers_aligned create \<longleftrightarrow>
     (\<forall>k batch r. create k batch = Inr r \<longrightarrow> length r = length batch)"

text \<open>
  Stand-ins for the embedding provider: one that answers every request, one that is down,
  and one that fails on its second request only.
\<close>

definition steady_create :: "pystr list \<Rightarrow> pyexc + embedding list" where
  "steady_create batch = Inr (map (\<lambda>t. [1 / 2, 1 / 4]) batch)"

definition down_create :: "pystr list \<Rightarrow> pyexc + embedding list" where
  "down_create batch = Inl ExternalError"

definition flaky_create :: "nat \<Rightarrow> pystr list \<Rightarrow> pyexc + embedding list" where
  "flaky_create k batch = (if k = 1 then down_create batch else steady_create batch)"

definition five_texts :: "pystr list" where
  "five_texts = [ascii ''a'', ascii ''b'', ascii ''c'', ascii ''d'', ascii ''e'']"

text \<open>
  Stand-ins for the index's \<open>add\<close>: one that stores every item it is handed, and one
  that rejects a request holding an empty vector and otherwise stores.
\<close>

definition accepting_add :: "row list \<Rightarrow> add_request \<Rightarrow> pyexc + row list" where
  "accepting_add collection request =
     Inr (collection @
          map (\<lambda>(i, t, e, m). \<lparr>row_id = i, row_text = t, row_embedding = e, row_metadata = m\<rparr>)
            (zip (req_ids request) (zip (req_documents request)
               (zip (req_embeddings request) (req_metadatas request)))))"

definition validating_add :: "row list \<Rightarrow> add_request \<Rightarrow> pyexc + row list" where
  "validating_add collection request =
     (if [] \<in> set (req_embeddings request) then Inl ExternalError
      else accepting_add collection request)"

text \<open>
  A processed document with one chunk, and the text items \<open>index_documents\<close> builds for
  three such documents.
\<close>

definition short_docx :: "string \<Rightarrow> string \<Rightarrow> processed" where
  "short_docx name body =
     \<lparr>pd_file_path = ascii ''docs/'' @ ascii name @ ascii ''.docx'',
      pd_file_name = ascii name @ ascii ''.docx'',
      pd_text = ascii body, pd_chunks = [ascii body], pd_images = []\<rparr>"

definition three_documents :: "document list" where
  "three_documents =
     text_documents [short_docx ''a'' ''one'', short_docx ''b'' ''two'', short_docx ''c'' ''three'']"

text \<open>
  Two contracts of the index's \<open>query\<close>: it returns only documents that are stored, and
  its answer lists as many metadatas and distances as documents for the query.
\<close>

definition query_sound ::
  "(row list \<Rightarrow> embedding list \<Rightarrow> int \<Rightarrow> pyexc + query_result) \<Rightarrow> bool" where
  "query_sound coll_query \<longleftrightarrow>
     (\<forall>collection query_embeddings n results.
        coll_query collection query_embeddings n = Inr results \<longrightarrow>
        set (first_or_empty (res_documents results)) \<subseteq> row_text ` set collection)"

definition answers_parallel ::
  "(row list \<Rightarrow> embedding list \<Rightarrow> int \<Rightarrow> pyexc + query_result) \<Rightarrow> bool" where
  "answers_parallel coll_query \<longleftrightarrow>
     (\<forall>collection query_embeddings n results.
        coll_query collection query_embeddings n = Inr results \<longrightarrow>
        length (first_or_empty (res_metadatas results)) =
          length (first_or_empty (res_documents results)) \<and>
        length (first_or_empty (res_distances results)) =
          length (first_or_empty (res_documents results)))"

text \<open>
  A stand-in for the index's \<open>query\<close>: the first \<open>n\<close> stored items, each at distance 1/4;
  it raises when \<open>n\<close> is not positive. Stand-ins for the chat model, one that replies and
  one that is down, and stored items.
\<close>

definition listing_query :: "row list \<Rightarrow> embedding list \<Rightarrow> int \<Rightarrow> pyexc + query_result" where
  "listing_query collection query_embeddings n =
     (if n \<le> 0 then Inl ExternalError
      else Inr \<lparr>res_documents = Some [map row_text (take (nat n) collection)],
                res_metadatas = Some [map row_metadata (take (nat n) collection)],
                res_distances = Some [map (\<lambda>r. 1 / 4) (take (nat n) collection)]\<rparr>)"

definition ok_chat :: "pystr \<Rightarrow> pystr \<Rightarrow> int \<Rightarrow> pyexc + pystr" where
  "ok_chat system user max_tokens = Inr (ascii ''ok'')"

definition down_chat :: "pystr \<Rightarrow> pystr \<Rightarrow> int \<Rightarrow> pyexc + pystr" where
  "down_chat system user max_tokens = Inl ExternalError"

definition stored :: "string \<Rightarrow> string \<Rightarrow> row" where
  "stored name body =
     \<lparr>row_id = ascii name @ ascii ''_chunk_0'', row_text = ascii body,
      row_embedding = [1 / 2, 1 / 4],
      row_metadata = [(ascii ''file_name'', PyStr (ascii name @ ascii ''.docx'')),
                      (ascii ''type'', PyStr (ascii ''text''))]\<rparr>"

definition five_rows :: "row list" where
  "five_rows = [stored ''a'' ''one'', stored ''b'' ''two'', stored ''c'' ''three'',
                stored ''d'' ''four'', stored ''e'' ''five'']"

text \<open>Two retrieved results: a short one, and one whose text alone has 4000 characters.\<close>

definition small_doc :: retrieved where
  "small_doc = \<lparr>r_text = ascii ''short answer'',
                 r_metadata = [(ascii ''file_name'', PyStr (ascii ''a.docx'')),
                               (ascii ''type'', PyStr (ascii ''text''))],
                 r_score = 9 / 10\<rparr>"

definition big_doc :: retrieved where
  "big_doc = \<lparr>r_text = replicate 4000 97,
               r_metadata = [(ascii ''file_name'', PyStr (ascii ''b.docx'')),
                             (ascii ''type'', PyStr (ascii ''text''))],
               r_score = 4 / 5\<rparr>"







section \<open>Properties of the chunker\<close>

subsection \<open>Searching and stripping\<close>

lemma occurs_at_sublist: "occurs_at sub s i \<Longrightarrow> sublist sub s"
proof -
  assume h: "occurs_at sub s i"
  have "s = take i s @ drop i s"
    by simp
  also have "drop i s = take (length sub) (drop i s) @ drop (length sub) (drop i s)"
    by (simp only: append_take_drop_id)
  also have "take (length sub) (drop i s) = sub"
    using h by (simp add: occurs_at_def)
  finally have "s = take i s @ sub @ drop (length sub) (drop i s)" .
  then show ?thesis
    unfolding sublist_def by blast
qed

lemma rfind_down_none:
  "(\<And>i. lo \<le> i \<Longrightarrow> i \<le> hi \<Longrightarrow> \<not> occurs_at sub s i) \<Longrightarrow> rfind_down s sub lo hi = -1"
  by (induction hi) auto

lemma rfind_down_hit:
  "occurs_at sub s p \<Longrightarrow> lo \<le> p \<Longrightarrow> p \<le> hi \<Longrightarrow>
   (\<And>i. p < i \<Longrightarrow> i \<le> hi \<Longrightarrow> \<not> occurs_at sub s i) \<Longrightarrow> rfind_down s sub lo hi = int p"
proof (induction hi)
  case 0
  then show ?case by simp
next
  case (Suc h)
  show ?case
  proof (cases "p = Suc h")
    case True
    with Suc.prems show ?thesis by simp
  next
    case False
    with Suc.prems have "p \<le> h" by simp
    moreover have "\<not> occurs_at sub s (Suc h)"
      using Suc.prems False by simp
    moreover have "\<not> Suc h < lo" using Suc.prems by simp
    ultimately show ?thesis
      using Suc.IH [OF Suc.prems(1) Suc.prems(2)] Suc.prems(4) by simp
  qed
qed

lemma rfind_none: "\<not> sublist sub s \<Longrightarrow> rfind s sub a b = -1"
proof -
  assume "\<not> sublist sub s"
  then have "rfind_down s sub lo hi = -1" for lo hi
    using occurs_at_sublist [of sub s] by (intro rfind_down_none) blast
  then show ?thesis
    by (simp add: rfind_def Let_def)
qed

lemma snap_end_none: "(\<forall>d\<in>set ds. \<not> sublist d text) \<Longrightarrow> snap_end text a b ds = b"
  by (induction ds) (simp_all add: rfind_none)

lemma window_end_none:
  "\<forall>d\<in>set delimiters. \<not> sublist d text \<Longrightarrow> window_end self text start = start + chunk_size self"
  by (simp add: window_end_def Let_def snap_end_none)


lemma chunk_loop_stuck:
  assumes lt: "start < int (length text)"
    and we: "window_end self text start < int (length text)"
    and again: "window_end self text start - chunk_overlap self = start"
  shows "chunk_loop self text (start, chunks) starts = None"
proof -
  have no_run: "\<not> (self' = self \<and> text' = text \<and> fst st = start)"
    if run: "chunk_loop self' text' st starts' = Some y" for self' text' st starts' y
  proof (rule chunk_loop.raw_induct
      [where P = "\<lambda>a b c d y. \<not> (a = self \<and> b = text \<and> fst c = start)", OF _ run])
    fix loop :: "DocumentProcessor \<Rightarrow> pystr \<Rightarrow> int \<times> pystr list \<Rightarrow> int list \<Rightarrow> (pystr list \<times> int list) option"
    fix a b c d y
    assume IH: "\<And>a b c d y. loop a b c d = Some y \<Longrightarrow> \<not> (a = self \<and> b = text \<and> fst c = start)"
      and step: "(if fst c < int (length b) then loop a b (chunk_step a b c) (d @ [fst c])
                  else Some (snd c, d)) = Some y"
    show "\<not> (a = self \<and> b = text \<and> fst c = start)"
    proof
      assume eq: "a = self \<and> b = text \<and> fst c = start"
      then have "fst (chunk_step a b c) = start"
        using we again by (simp add: chunk_step_def Let_def)
      moreover have "loop a b (chunk_step a b c) (d @ [fst c]) = Some y"
        using step eq lt by simp
      ultimately show False
        using IH eq by blast
    qed
  qed
  have "chunk_loop self text (start, chunks) starts \<noteq> Some y" for y
    using no_run [of self "text" "(start, chunks)" starts y] by auto
  then have "\<forall>y. chunk_loop self text (start, chunks) starts \<noteq> Some y"
    by blast
  then show ?thesis
    by (simp only: not_Some_eq)
qed

lemma occurs_at_nth: "occurs_at sub s i \<Longrightarrow> k < length sub \<Longrightarrow> i + k < length s \<and> s ! (i + k) = sub ! k"
proof -
  assume h: "occurs_at sub s i" and k: "k < length sub"
  from h have len: "length (take (length sub) (drop i s)) = length sub"
    by (simp add: occurs_at_def)
  then have "i + k < length s" using k by simp
  moreover have "take (length sub) (drop i s) ! k = sub ! k"
    using h by (simp add: occurs_at_def)
  ultimately show ?thesis using k by simp
qed

lemma stuck_rfind: "rfind stuck_text [10, 10] 0 500 = 98"
proof -
  have hit: "occurs_at [10, 10] stuck_text 98"
    by (simp add: occurs_at_def stuck_text_def)
  have miss: "\<not> occurs_at [10, 10] stuck_text i" if "98 < i" for i
  proof
    assume "occurs_at [10, 10] stuck_text i"
    from occurs_at_nth [OF this, of 1] have "i + 1 < 600" "stuck_text ! (i + 1) = 10"
      by (simp_all add: stuck_text_def)
    then show False using that
      by (simp add: stuck_text_def nth_append)
  qed
  have "rfind_down stuck_text [10, 10] 0 498 = int 98"
    by (rule rfind_down_hit [OF hit]) (simp_all add: miss)
  then show ?thesis
    by (simp add: rfind_def Let_def stuck_text_def)
qed

lemma stuck_window: "window_end (DocumentProcessor_init 500 100) stuck_text 0 = 100"
  using stuck_rfind
  by (simp add: window_end_def DocumentProcessor_init_def delimiters_def Let_def)
    (simp add: stuck_text_def)

subsection \<open>The loop can run forever\<close>

text \<open>
  Claim C3 says that for \<open>0 < overlap < size\<close> the loop of \<open>chunk_text\<close> terminates with
  strictly increasing window starts. The code does not: with size 500 and overlap 100, on
  \<open>stuck_text\<close> the first window is cut back to just after the paragraph break at index 98,
  so \<open>end = 100\<close> and the next start is \<open>end - overlap = 0\<close> again. Every pass starts at 0
  and \<open>chunk_text\<close> never returns.
\<close>

theorem chunk_text_never_returns:
  "chunk_text (DocumentProcessor_init 500 100) stuck_text = None"
proof -
  have "chunk_loop (DocumentProcessor_init 500 100) stuck_text (0, []) [] = None"
    by (rule chunk_loop_stuck) (simp_all add: stuck_window, simp_all add: stuck_text_def DocumentProcessor_init_def)
  moreover have "stuck_text \<noteq> []" by (simp add: stuck_text_def)
  ultimately show ?thesis
    by (simp add: chunk_text_def chunk_trace_def)
qed

text \<open>When \<open>chunk_text\<close> does return, no chunk it returns is empty.\<close>

lemma chunk_step_nonempty: "[] \<notin> set (snd st) \<Longrightarrow> [] \<notin> set (snd (chunk_step self text st))"
  by (simp add: chunk_step_def Let_def)

lemma chunk_loop_nonempty:
  assumes run: "chunk_loop self text st starts = Some y"
  shows "[] \<notin> set (snd st) \<longrightarrow> [] \<notin> set (fst y)"
proof (rule chunk_loop.raw_induct
    [where P = "\<lambda>a b c d y. [] \<notin> set (snd c) \<longrightarrow> [] \<notin> set (fst y)", OF _ run])
  fix loop :: "DocumentProcessor \<Rightarrow> pystr \<Rightarrow> int \<times> pystr list \<Rightarrow> int list \<Rightarrow> (pystr list \<times> int list) option"
  fix a b c d y
  assume IH: "\<And>a b c d y. loop a b c d = Some y \<Longrightarrow> [] \<notin> set (snd c) \<longrightarrow> [] \<notin> set (fst y)"
    and step: "(if fst c < int (length b) then loop a b (chunk_step a b c) (d @ [fst c])
                else Some (snd c, d)) = Some y"
  show "[] \<notin> set (snd c) \<longrightarrow> [] \<notin> set (fst y)"
  proof (cases "fst c < int (length b)")
    case True
    with step have "loop a b (chunk_step a b c) (d @ [fst c]) = Some y" by simp
    from IH [OF this] chunk_step_nonempty [of c a b] show ?thesis by blast
  next
    case False
    with step show ?thesis by auto
  qed
qed

lemma chunk_text_nonempty: "chunk_text self text = Some chunks \<Longrightarrow> [] \<notin> set chunks"
proof -
  assume r: "chunk_text self text = Some chunks"
  show ?thesis
  proof (cases "text = []")
    case True
    with r show ?thesis by (simp add: chunk_text_def chunk_trace_def)
  next
    case False
    with r obtain y where "chunk_loop self text (0, []) [] = Some y" "fst y = chunks"
      by (auto simp: chunk_text_def chunk_trace_def)
    with chunk_loop_nonempty [of self "text" "(0, [])" "[]" y] show ?thesis by simp
  qed
qed

subsection \<open>Short texts and texts without delimiters\<close>

lemma strip_Nil_iff: "strip s = [] \<longleftrightarrow> (\<forall>c\<in>set s. isspace c)"
proof
  assume "strip s = []"
  then have all: "\<forall>c\<in>set (dropWhile isspace s). isspace c"
    by (simp add: strip_def)
  show "\<forall>c\<in>set s. isspace c"
  proof (cases "dropWhile isspace s")
    case Nil
    then show ?thesis by simp
  next
    case (Cons c cs)
    then have "\<not> isspace c" by (metis hd_dropWhile list.sel(1) list.distinct(1))
    with all Cons show ?thesis by simp
  qed
next
  assume "\<forall>c\<in>set s. isspace c"
  then have d: "dropWhile isspace s = []"
    by simp
  show "strip s = []"
    unfolding strip_def d by simp
qed

lemma length_strip: "length (strip s) \<le> length s"
proof -
  have "length (strip s) \<le> length (dropWhile isspace s)"
    unfolding strip_def using length_dropWhile_le [of isspace "rev (dropWhile isspace s)"] by simp
  also have "\<dots> \<le> length s" by (rule length_dropWhile_le)
  finally show ?thesis .
qed

lemma chunk_step_plain:
  assumes "\<forall>d\<in>set delimiters. \<not> sublist d text"
  shows "chunk_step self text (start, cs) =
    (if start + chunk_size self < int (length text) then start + chunk_size self - chunk_overlap self
     else start + chunk_size self,
     if strip (slice text start (start + chunk_size self)) \<noteq> []
     then cs @ [strip (slice text start (start + chunk_size self))] else cs)"
  by (simp add: chunk_step_def Let_def window_end_none [OF assms])

lemma chunk_trace_1200:
  assumes len: "length text = 1200" and nd: "no_delimiter text"
  shows "chunk_trace (DocumentProcessor_init 500 100) text =
    Some (filter (\<lambda>c. c \<noteq> []) (map strip (windows_1200 text)), [0, 400, 800])"
proof -
  let ?p = "DocumentProcessor_init 500 100"
  from nd have nd': "\<forall>d\<in>set delimiters. \<not> sublist d text"
    by (simp add: no_delimiter_def list_all_iff)
  have step: "chunk_step ?p text (start, cs) =
    (if start + 500 < 1200 then start + 400 else start + 500,
     if strip (slice text start (start + 500)) \<noteq> []
     then cs @ [strip (slice text start (start + 500))] else cs)" for start cs
    by (simp add: chunk_step_plain [OF nd'] DocumentProcessor_init_def len)
  have last: "slice text 800 1300 = slice text 800 1200"
    by (simp add: slice_def adjust_def len)
  have "text \<noteq> []" using len by auto
  then have "chunk_trace ?p text = chunk_loop ?p text (0, []) []"
    by (simp add: chunk_trace_def)
  also have "\<dots> = chunk_loop ?p text (chunk_step ?p text (0, [])) [0]"
    by (subst chunk_loop.simps) (simp add: len)
  also have "\<dots> = chunk_loop ?p text (400, filter (\<lambda>c. c \<noteq> []) [strip (slice text 0 500)]) [0]"
    by (simp add: step)
  also have "\<dots> = chunk_loop ?p text
      (800, filter (\<lambda>c. c \<noteq> []) [strip (slice text 0 500), strip (slice text 400 900)]) [0, 400]"
    by (subst chunk_loop.simps) (simp add: len step)
  also have "\<dots> = chunk_loop ?p text
      (1300, filter (\<lambda>c. c \<noteq> []) (map strip (windows_1200 text))) [0, 400, 800]"
    by (subst chunk_loop.simps) (simp add: len step last windows_1200_def)
  also have "\<dots> = Some (filter (\<lambda>c. c \<noteq> []) (map strip (windows_1200 text)), [0, 400, 800])"
    by (subst chunk_loop.simps) (simp add: len)
  finally show ?thesis .
qed


lemma no_delimiter_chars:
  assumes "10 \<notin> set text" "46 \<notin> set text" "12290 \<notin> set text" "33 \<notin> set text" "63 \<notin> set text"
  shows "no_delimiter text"
proof -
  have "\<not> sublist d text" if "d \<in> set delimiters" for d
  proof
    assume "sublist d text"
    then have "set d \<subseteq> set text" by (rule set_mono_sublist)
    with that assms show False
      by (auto simp: delimiters_def)
  qed
  then show ?thesis
    by (simp add: no_delimiter_def list_all_iff)
qed

lemma strip_replicate: "strip (replicate n c) = (if isspace c then [] else replicate n c)"
  by (simp add: strip_def)

lemma chunk_text_short:
  assumes "int (length text) \<le> chunk_size self"
  shows "chunk_trace self text = Some (if text = [] then ([], []) else (if strip text = [] then [] else [strip text], [0]))"
proof (cases "text = []")
  case True
  then show ?thesis by (simp add: chunk_trace_def)
next
  case False
  then have pos: "0 < int (length text)" by simp
  have we: "window_end self text 0 = chunk_size self"
    using assms by (simp add: window_end_def Let_def)
  have sl: "slice text 0 (chunk_size self) = text"
    using assms pos by (simp add: slice_def adjust_def)
  have step: "chunk_step self text (0, []) = (chunk_size self, if strip text = [] then [] else [strip text])"
    using assms by (simp add: chunk_step_def Let_def we sl)
  have "chunk_trace self text = chunk_loop self text (0, []) []"
    using False by (simp add: chunk_trace_def)
  also have "\<dots> = chunk_loop self text (chunk_step self text (0, [])) [0]"
    using pos by (subst chunk_loop.simps) simp
  also have "\<dots> = Some (if strip text = [] then [] else [strip text], [0])"
    using assms by (subst chunk_loop.simps) (simp add: step)
  finally show ?thesis using False by simp
qed
lemma dropWhile_replicate_append:
  "dropWhile P (replicate n x @ ys) = (if P x \<or> n = 0 then dropWhile P ys else replicate n x @ ys)"
  by (induction n) auto

text \<open>
  Claim C4, as amended: nothing checks \<open>overlap < size\<close>. With \<open>overlap \<ge> size\<close> the
  chunker raises no configuration error; a text of at most \<open>size\<close> characters comes back
  as its one stripped chunk, or as no chunk when it is blank.
\<close>

theorem chunk_text_overlap_unchecked:
  assumes "csize \<le> coverlap" and "int (length text) \<le> csize"
  shows "chunk_text (DocumentProcessor_init csize coverlap) text =
         Some (if strip text = [] then [] else [strip text])"
proof -
  have "int (length text) \<le> chunk_size (DocumentProcessor_init csize coverlap)"
    using assms(2) by (simp add: DocumentProcessor_init_def)
  from chunk_text_short [OF this] show ?thesis
    by (auto simp: chunk_text_def strip_def)
qed

text \<open>Claim C4, as amended, at size 7, overlap 9 and the text \<open>a b c \<close>.\<close>

theorem chunk_text_overlap_unchecked_witness:
  "(7::int) \<le> 9 \<and> int (length (ascii ''a b c '')) \<le> 7 \<and>
   chunk_text (DocumentProcessor_init 7 9) (ascii ''a b c '') = Some [ascii ''a b c'']"
proof -
  have h1: "(7::int) \<le> 9" by simp
  have h2: "int (length (ascii ''a b c '')) \<le> 7" by (simp add: ascii_def)
  show ?thesis
    using chunk_text_overlap_unchecked [OF h1 h2] h2
    by (simp add: ascii_def strip_def isspace_def)
qed

text \<open>
  Claim C4 as stated fails: with size 100 and overlap 100 the call on \<open>abc\<close> returns
  the chunk \<open>abc\<close>; it does not fail.
\<close>

theorem chunk_text_equal_overlap_returns:
  "chunk_size (DocumentProcessor_init 100 100) \<le> chunk_overlap (DocumentProcessor_init 100 100) \<and>
   chunk_text (DocumentProcessor_init 100 100) (ascii ''abc'') = Some [ascii ''abc'']"
proof -
  have "int (length (ascii ''abc'')) \<le> chunk_size (DocumentProcessor_init 100 100)"
    by (simp add: ascii_def DocumentProcessor_init_def)
  from chunk_text_short [OF this] show ?thesis
    by (simp add: chunk_text_def DocumentProcessor_init_def ascii_def strip_def isspace_def)
qed

text \<open>
  Claim C8, as amended: a text of 1200 characters without delimiters, chunked with size 500
  and overlap 100, is cut into the windows starting at 0, 400 and 800; each window is
  stripped and a window of whitespace only gives no chunk. So every chunk has at most 500
  characters, and there are exactly 3 chunks when each window holds a character that is
  not whitespace.
\<close>

theorem chunk_text_1200:
  assumes "length text = 1200" and "no_delimiter text"
  shows "\<exists>chunks.
           chunk_text (DocumentProcessor_init 500 100) text = Some chunks \<and>
           chunk_trace (DocumentProcessor_init 500 100) text = Some (chunks, [0, 400, 800]) \<and>
           chunks = filter (\<lambda>c. c \<noteq> []) (map strip (windows_1200 text)) \<and>
           (\<forall>c\<in>set chunks. length c \<le> 500) \<and>
           (list_all (list_ex (\<lambda>c. \<not> isspace c)) (windows_1200 text) \<longrightarrow> length chunks = 3)"
proof -
  let ?chunks = "filter (\<lambda>c. c \<noteq> []) (map strip (windows_1200 text))"
  have tr: "chunk_trace (DocumentProcessor_init 500 100) text = Some (?chunks, [0, 400, 800])"
    using assms by (rule chunk_trace_1200)
  have w: "length w \<le> 500" if "w \<in> set (windows_1200 text)" for w
    using that assms(1) by (auto simp: windows_1200_def slice_def adjust_def)
  have "length c \<le> 500" if "c \<in> set ?chunks" for c
  proof -
    from that obtain w where "w \<in> set (windows_1200 text)" "c = strip w" by auto
    then show ?thesis using w [of w] length_strip [of w] by simp
  qed
  moreover have "length ?chunks = 3" if "list_all (list_ex (\<lambda>c. \<not> isspace c)) (windows_1200 text)"
  proof -
    have "\<forall>w\<in>set (windows_1200 text). strip w \<noteq> []"
      using that by (auto simp: strip_Nil_iff list_all_iff list_ex_iff)
    then have "?chunks = map strip (windows_1200 text)"
      by (simp add: windows_1200_def)
    then show ?thesis by (simp add: windows_1200_def)
  qed
  ultimately show ?thesis
    using tr by (auto simp: chunk_text_def)
qed

text \<open>Claim C8, as amended, on 1200 letters \<open>a\<close>: chunks of 500, 500 and 400 characters.\<close>

theorem chunk_text_1200_witness:
  "length (replicate 1200 (97::nat)) = 1200 \<and> no_delimiter (replicate 1200 97) \<and>
   list_all (list_ex (\<lambda>c. \<not> isspace c)) (windows_1200 (replicate 1200 97)) \<and>
   chunk_trace (DocumentProcessor_init 500 100) (replicate 1200 97) =
     Some ([replicate 500 97, replicate 500 97, replicate 400 97], [0, 400, 800])"
proof -
  have h1: "length (replicate 1200 (97::nat)) = 1200" by simp
  have h2: "no_delimiter (replicate 1200 97)"
    by (rule no_delimiter_chars) simp_all
  have w: "windows_1200 (replicate 1200 97) = [replicate 500 97, replicate 500 97, replicate 400 97]"
    by (simp add: windows_1200_def slice_def adjust_def)
  have h3: "list_all (list_ex (\<lambda>c. \<not> isspace c)) (windows_1200 (replicate 1200 97))"
    by (simp add: w isspace_def list_ex_iff)
  from chunk_text_1200 [OF h1 h2] h3 show ?thesis
    using h1 h2 by (simp add: w strip_replicate isspace_def)
qed

text \<open>
  Claim C8 as stated fails on \<open>sparse_text\<close>: it has 1200 characters and no delimiter,
  its middle window is blank, and \<open>chunk_text\<close> returns 2 chunks, not 3.
\<close>

theorem blank_window_gives_two_chunks:
  "length sparse_text = 1200 \<and> no_delimiter sparse_text \<and>
   chunk_text (DocumentProcessor_init 500 100) sparse_text = Some [[97], [98]]"
proof -
  have h1: "length sparse_text = 1200" by (simp add: sparse_text_def)
  have h2: "no_delimiter sparse_text"
    by (rule no_delimiter_chars) (simp_all add: sparse_text_def)
  have w: "windows_1200 sparse_text = [97 # replicate 499 32, replicate 500 32, replicate 399 32 @ [98]]"
    by (simp add: windows_1200_def sparse_text_def slice_def adjust_def)
  have s1: "strip (97 # replicate 499 32) = [97]"
    by (simp add: strip_def isspace_def dropWhile_replicate_append)
  have s3: "strip (replicate 399 32 @ [98]) = [98]"
    by (simp add: strip_def isspace_def dropWhile_replicate_append)
  from chunk_trace_1200 [OF h1 h2] show ?thesis
    using h1 h2 by (simp add: chunk_text_def w s1 s3 strip_replicate isspace_def)
qed

section \<open>Properties of the vector store\<close>

subsection \<open>Batched embedding\<close>

lemma slice_nonneg: "0 \<le> i \<Longrightarrow> 0 \<le> j \<Longrightarrow> slice s i j = drop (nat i) (take (nat j) s)"
  by (simp add: slice_def adjust_def min_def)

lemma length_slice: "0 \<le> i \<Longrightarrow> 0 \<le> j \<Longrightarrow> length (slice s i j) = min (nat j) (length s) - nat i"
  by (simp add: slice_nonneg)

lemma slice_append_mid:
  "0 \<le> i \<Longrightarrow> 0 \<le> b \<Longrightarrow> length acc = nat i \<Longrightarrow> length out = nat b \<Longrightarrow>
   slice (acc @ out @ suf) i (i + b) = out"
  by (simp add: slice_nonneg nat_add_distrib)

lemma slice_append_end:
  "0 \<le> i \<Longrightarrow> 0 \<le> b \<Longrightarrow> length acc = nat i \<Longrightarrow> length out \<le> nat b \<Longrightarrow>
   slice (acc @ out) i (i + b) = out"
  by (simp add: slice_nonneg nat_add_distrib)

lemma embed_fold:
  fixes create :: "nat \<Rightarrow> pystr list \<Rightarrow> pyexc + embedding list"
  assumes contract: "\<And>k batch r. create k batch = Inr r \<Longrightarrow> length r = length batch"
  shows "0 < bs \<Longrightarrow> n = int (length texts) \<Longrightarrow> i = int k * bs \<Longrightarrow>
     int (length acc) = min i n \<Longrightarrow>
     (\<exists>suf. snd (foldl (embed_pass create texts bs) (k, acc) (range_up i n bs)) = acc @ suf \<and>
        length (acc @ suf) = length texts \<and>
        (\<forall>j\<ge>k. int j * bs < n \<longrightarrow>
           slice (acc @ suf) (int j * bs) (int j * bs + bs) =
             (case create j (slice texts (int j * bs) (int j * bs + bs)) of
                Inr r \<Rightarrow> r
              | Inl e \<Rightarrow> map (\<lambda>_. []) (slice texts (int j * bs) (int j * bs + bs)))))"
proof (induction i n bs arbitrary: k acc rule: range_up.induct)
  case (1 i n bs)
  let ?out = "\<lambda>j. case create j (slice texts (int j * bs) (int j * bs + bs)) of
                Inr r \<Rightarrow> r
              | Inl e \<Rightarrow> map (\<lambda>_. []) (slice texts (int j * bs) (int j * bs + bs))"
  have i0: "0 \<le> i" using "1.prems" by simp
  show ?case
  proof (cases "i < n")
    case False
    then have "range_up i n bs = []"
      by (simp add: range_up.simps)
    moreover have "length acc = length texts"
      using False "1.prems" by simp
    moreover have "\<not> int j * bs < n" if "k \<le> j" for j
    proof -
      have "int k * bs \<le> int j * bs" using that "1.prems"(1) by (simp add: mult_right_mono)
      then show ?thesis using False "1.prems"(3) by simp
    qed
    ultimately show ?thesis by simp
  next
    case True
    then have lacc: "length acc = nat i" using "1.prems" by simp
    have lout: "length (?out k) = length (slice texts i (i + bs))"
      using contract [of k "slice texts i (i + bs)"] "1.prems"(3)
      by (cases "create k (slice texts i (i + bs))") simp_all
    have lbatch: "length (slice texts i (i + bs)) = min (nat (i + bs)) (length texts) - nat i"
      using i0 "1.prems"(1) by (simp add: length_slice)
    have ru: "range_up i n bs = i # range_up (i + bs) n bs"
      using True "1.prems"(1) by (subst range_up.simps) simp
    have pass: "embed_pass create texts bs (k, acc) i = (Suc k, acc @ ?out k)"
      using "1.prems"(3) by (simp add: embed_pass_def Let_def)
    have inv: "int (length (acc @ ?out k)) = min (i + bs) n"
      using lacc lout lbatch i0 "1.prems"(1,2) True by (simp add: min_def) linarith
    have ik: "i + bs = int (Suc k) * bs"
      using "1.prems"(3) by (simp add: algebra_simps)
    from "1.IH" [OF _ "1.prems"(1) "1.prems"(2) ik inv] True "1.prems"(1)
    obtain suf where
      r: "snd (foldl (embed_pass create texts bs) (Suc k, acc @ ?out k) (range_up (i + bs) n bs))
            = (acc @ ?out k) @ suf"
      and len: "length ((acc @ ?out k) @ suf) = length texts"
      and later: "\<forall>j\<ge>Suc k. int j * bs < n \<longrightarrow>
           slice ((acc @ ?out k) @ suf) (int j * bs) (int j * bs + bs) = ?out j"
      by auto
    have here: "slice ((acc @ ?out k) @ suf) (int k * bs) (int k * bs + bs) = ?out k"
    proof (cases "i + bs \<le> n")
      case True
      then have "length (?out k) = nat bs"
        using lout lbatch i0 "1.prems"(1,2) by (simp add: min_def) linarith
      then show ?thesis
        using slice_append_mid [of i bs acc "?out k" suf] i0 "1.prems"(1,3) lacc by simp
    next
      case False
      then have "length (acc @ ?out k) = length texts"
        using inv "1.prems"(2) by simp
      with len have "length suf = 0" by (simp del: length_0_conv)
      then have "suf = []" by simp
      moreover have "length (?out k) \<le> nat bs"
        using lout lbatch i0 "1.prems"(1,2) by (simp add: min_def) linarith
      ultimately show ?thesis
        using slice_append_end [of i bs acc "?out k"] i0 "1.prems"(1,3) lacc by simp
    qed
    have all: "\<forall>j\<ge>k. int j * bs < n \<longrightarrow>
           slice (acc @ ?out k @ suf) (int j * bs) (int j * bs + bs) = ?out j"
    proof (intro allI impI)
      fix j assume "k \<le> j" "int j * bs < n"
      show "slice (acc @ ?out k @ suf) (int j * bs) (int j * bs + bs) = ?out j"
      proof (cases "j = k")
        case True
        show ?thesis unfolding True using here by simp
      next
        case False
        then have "Suc k \<le> j" using \<open>k \<le> j\<close> by simp
        then show ?thesis using later \<open>int j * bs < n\<close> by simp
      qed
    qed
    show ?thesis
      apply (rule exI [of _ "?out k @ suf"])
      using r len all by (simp add: ru pass)
  qed
qed

text \<open>
  Claim C5, as amended: for every list of texts and every batch size of at least 1, with a
  provider that answers a request with one vector per text or fails, \<open>get_embeddings_batch\<close>
  returns as many vectors as there are texts, and the slots of batch \<open>k\<close> hold the provider's
  answer to request \<open>k\<close>, or the empty vector throughout when that request failed.
\<close>

theorem get_embeddings_batch_aligned:
  assumes "0 < batch_size" and "answers_aligned create"
  shows "\<exists>embeddings.
           get_embeddings_batch create texts batch_size = Inr embeddings \<and>
           length embeddings = length texts \<and>
           (\<forall>k. int k * batch_size < int (length texts) \<longrightarrow>
              slice embeddings (int k * batch_size) (int k * batch_size + batch_size) =
                (case create k (slice texts (int k * batch_size) (int k * batch_size + batch_size)) of
                   Inr r \<Rightarrow> r
                 | Inl e \<Rightarrow>
                     map (\<lambda>_. []) (slice texts (int k * batch_size) (int k * batch_size + batch_size))))"
proof -
  have contract: "\<And>k batch r. create k batch = Inr r \<Longrightarrow> length r = length batch"
    using assms(2) by (simp add: answers_aligned_def)
  have "int (length ([] :: embedding list)) = min (int 0 * batch_size) (int (length texts))"
    by simp
  from embed_fold [OF contract assms(1) refl _ this] obtain suf where
    "snd (foldl (embed_pass create texts batch_size) (0, []) (range_up 0 (int (length texts)) batch_size)) = suf"
    "length suf = length texts"
    "\<forall>j. int j * batch_size < int (length texts) \<longrightarrow>
       slice suf (int j * batch_size) (int j * batch_size + batch_size) =
         (case create j (slice texts (int j * batch_size) (int j * batch_size + batch_size)) of
            Inr r \<Rightarrow> r
          | Inl e \<Rightarrow> map (\<lambda>_. []) (slice texts (int j * batch_size) (int j * batch_size + batch_size)))"
    by auto
  then show ?thesis
    using assms(1) by (simp add: get_embeddings_batch_def py_range_def)
qed

lemma answers_aligned_flaky: "answers_aligned flaky_create"
  by (auto simp: answers_aligned_def flaky_create_def steady_create_def down_create_def)

lemma range_up_0_5_2: "range_up 0 5 2 = [0, 2, 4]"
  by (simp add: range_up.simps [of 0] range_up.simps [of 2] range_up.simps [of 4] range_up.simps [of 6])

text \<open>
  Claim C5, as amended, on five texts in batches of 2, the second request failing: slots 2
  and 3 hold the empty vector.
\<close>

theorem get_embeddings_batch_aligned_witness:
  "(0::int) < 2 \<and> answers_aligned flaky_create \<and>
   get_embeddings_batch flaky_create five_texts 2 =
     Inr [[1 / 2, 1 / 4], [1 / 2, 1 / 4], [], [], [1 / 2, 1 / 4]]"
proof -
  have h1: "(0::int) < 2" by simp
  have "get_embeddings_batch flaky_create five_texts 2 =
     Inr [[1 / 2, 1 / 4], [1 / 2, 1 / 4], [], [], [1 / 2, 1 / 4]]"
    by (simp add: get_embeddings_batch_def py_range_def five_texts_def range_up_0_5_2
        embed_pass_def slice_def adjust_def flaky_create_def steady_create_def down_create_def)
  then show ?thesis
    using get_embeddings_batch_aligned [OF h1 answers_aligned_flaky, of five_texts]
      answers_aligned_flaky by simp
qed

text \<open>
  Claim C5 as stated fails for a batch size below 1: a batch size of 0 raises
  \<open>ValueError\<close> (the step of \<open>range\<close>), and a negative one returns no vector at all for
  five texts.
\<close>

theorem get_embeddings_batch_bad_batch_size:
  "get_embeddings_batch flaky_create five_texts 0 = Inl ValueError \<and>
   get_embeddings_batch flaky_create five_texts (- 1) = Inr []"
  by (simp add: get_embeddings_batch_def py_range_def range_down.simps)

subsection \<open>Writing to the index\<close>


lemma range_up_0_3_1: "range_up 0 3 1 = [0, 1, 2]"
  by (simp add: range_up.simps [of 0] range_up.simps [of 1] range_up.simps [of 2] range_up.simps [of 3])

lemma ids_three_documents:
  "map d_id three_documents = [ascii ''a_chunk_0'', ascii ''b_chunk_0'', ascii ''c_chunk_0'']"
  by (simp add: three_documents_def text_documents_def short_docx_def chunk_id_def path_stem_def
      path_name_def path_parts_def rfind_def occurs_at_def slice_def adjust_def Let_def
      str_nat.simps [of 0] ascii_def eval_nat_numeral)


text \<open>
  An index that rejects the empty vector raises instead, and the \<open>try\<close> around the
  whole loop ends the write: of three items written one per request, with the provider
  failing on the second request only, the first is stored and the third, whose embedding
  is valid, is lost with the second.
\<close>

lemma add_documents_rejected_batch_ends_write:
  "map_sum id (map (\<lambda>r. (row_id r, row_embedding r)))
     (add_documents flaky_create validating_add [] three_documents 1) =
   Inr [(ascii ''a_chunk_0'', [1 / 2, 1 / 4])]"
proof -
  obtain d1 d2 d3 where three: "three_documents = [d1, d2, d3]"
    by (simp add: three_documents_def text_documents_def short_docx_def)
  have "d_id d1 = ascii ''a_chunk_0''"
    using ids_three_documents unfolding three by simp
  then show ?thesis
    by (simp add: three add_documents_def get_embeddings_batch_def py_range_def range_up_0_3_1
        embed_pass_def slice_def adjust_def flaky_create_def steady_create_def down_create_def
        accepting_add_def validating_add_def)
qed

subsection \<open>Searching the index\<close>

lemma search_failure:
  assumes "get_embedding create query = [] \<or>
           (\<exists>e. coll_query collection [get_embedding create query] n = Inl e)"
  shows "search create coll_query collection query n = empty_search"
  using assms by (auto simp: search_def Let_def)

lemma search_empty_collection:
  assumes "query_sound coll_query"
  shows "sr_documents (search create coll_query [] query n) = []"
proof (cases "coll_query [] [get_embedding create query] n")
  case (Inl e)
  then show ?thesis
    by (simp add: search_def Let_def empty_search_def)
next
  case (Inr results)
  have "set (first_or_empty (res_documents results)) \<subseteq> row_text ` set ([] :: row list)"
    using assms [unfolded query_sound_def, rule_format, OF Inr] .
  then show ?thesis
    using Inr by (simp add: search_def Let_def empty_search_def)
qed

text \<open>
  Claim C6: when the query text does not embed (the embedding call gives the empty vector)
  or the collection is empty, retrieval returns the empty list and raises nothing, for
  every query and every \<open>top_k\<close>. For the empty collection the index is taken to return
  stored documents only.
\<close>

theorem retrieve_degrades_to_empty:
  assumes "get_embedding create query = [] \<or> (collection = [] \<and> query_sound coll_query)"
  shows "retrieve_relevant_documents create coll_query collection query top_k = Inr []"
proof -
  have "sr_documents (search create coll_query collection query top_k) = []"
    using assms search_failure [of create query coll_query collection top_k]
      search_empty_collection [of coll_query create query top_k]
    by (auto simp: empty_search_def)
  then show ?thesis
    by (simp add: retrieve_relevant_documents_def Let_def)
qed

lemma query_sound_listing: "query_sound listing_query"
  by (auto simp: query_sound_def listing_query_def first_or_empty_def split: if_splits dest: in_set_takeD)

text \<open>
  Claim C6 with the provider down over five stored items, and with a working provider over
  the empty collection.
\<close>

theorem retrieve_degrades_to_empty_witness:
  "get_embedding down_create (ascii ''why'') = [] \<and>
   retrieve_relevant_documents down_create listing_query five_rows (ascii ''why'') 5 = Inr [] \<and>
   query_sound listing_query \<and>
   retrieve_relevant_documents steady_create listing_query [] (ascii ''why'') 5 = Inr []"
proof -
  have h1: "get_embedding down_create (ascii ''why'') = []"
    by (simp add: get_embedding_def down_create_def)
  show ?thesis
    using retrieve_degrades_to_empty [of down_create "ascii ''why''" five_rows listing_query 5]
      retrieve_degrades_to_empty [of steady_create "ascii ''why''" "[]" listing_query 5]
      h1 query_sound_listing
    by simp
qed

lemma retrieve_loop_total:
  "i + length docs \<le> length (sr_metadatas results) \<Longrightarrow>
   i + length docs \<le> length (sr_distances results) \<Longrightarrow>
   \<exists>out. retrieve_loop results i docs acc = Inr (acc @ out) \<and> length out = length docs"
proof (induction docs arbitrary: i acc)
  case Nil
  then show ?case by simp
next
  case (Cons doc rest)
  let ?acc = "acc @ [\<lparr>r_text = doc, r_metadata = sr_metadatas results ! i,
                       r_score = 1 - sr_distances results ! i\<rparr>]"
  from Cons.prems have "Suc i + length rest \<le> length (sr_metadatas results)"
    "Suc i + length rest \<le> length (sr_distances results)" by simp_all
  from Cons.IH [OF this, of ?acc] obtain out where
    "retrieve_loop results (Suc i) rest ?acc = Inr (?acc @ out)" "length out = length rest"
    by blast
  then show ?case
    using Cons.prems by simp
qed

text \<open>
  Claim C10: the three lists \<open>search\<close> returns have the same length, and all are empty
  when the query does not embed or the index raises, so the positional reads of
  \<open>retrieve_relevant_documents\<close> stay in range and it returns one entry per document.
  The index is taken to answer a query with as many metadatas and distances as documents.
\<close>

theorem search_lists_parallel:
  assumes "answers_parallel coll_query"
  shows "length (sr_metadatas (search create coll_query collection query n)) =
           length (sr_documents (search create coll_query collection query n)) \<and>
         length (sr_distances (search create coll_query collection query n)) =
           length (sr_documents (search create coll_query collection query n)) \<and>
         (get_embedding create query = [] \<or>
          isl (coll_query collection [get_embedding create query] n) \<longrightarrow>
            search create coll_query collection query n = empty_search) \<and>
         (\<exists>documents. retrieve_relevant_documents create coll_query collection query n = Inr documents \<and>
            length documents = length (sr_documents (search create coll_query collection query n)))"
proof -
  let ?r = "search create coll_query collection query n"
  have par: "length (sr_metadatas ?r) = length (sr_documents ?r) \<and>
             length (sr_distances ?r) = length (sr_documents ?r)"
  proof (cases "get_embedding create query = []")
    case True
    then show ?thesis by (simp add: search_def empty_search_def)
  next
    case False
    show ?thesis
    proof (cases "coll_query collection [get_embedding create query] n")
      case (Inl e)
      then show ?thesis using False by (simp add: search_def empty_search_def)
    next
      case (Inr results)
      have "length (first_or_empty (res_metadatas results)) =
          length (first_or_empty (res_documents results)) \<and>
        length (first_or_empty (res_distances results)) =
          length (first_or_empty (res_documents results))"
        using assms [unfolded answers_parallel_def, rule_format, OF Inr] .
      then show ?thesis using False Inr by (simp add: search_def)
    qed
  qed
  have fail: "get_embedding create query = [] \<or>
          isl (coll_query collection [get_embedding create query] n) \<longrightarrow> ?r = empty_search"
    using search_failure [of create query coll_query collection n]
    by (auto simp: isl_def)
  from par retrieve_loop_total [of 0 "sr_documents ?r" ?r "[]"]
  have "\<exists>documents. retrieve_relevant_documents create coll_query collection query n = Inr documents \<and>
            length documents = length (sr_documents ?r)"
    by (simp add: retrieve_relevant_documents_def Let_def)
  with par fail show ?thesis by blast
qed

lemma answers_parallel_listing: "answers_parallel listing_query"
  by (auto simp: answers_parallel_def listing_query_def first_or_empty_def split: if_splits)

text \<open>
  Claim C10 over five stored items with \<open>n_results = 3\<close>, with a working provider and with
  the provider down.
\<close>

theorem search_lists_parallel_witness:
  "answers_parallel listing_query \<and>
   length (sr_documents (search steady_create listing_query five_rows (ascii ''why'') 3)) = 3 \<and>
   length (sr_metadatas (search steady_create listing_query five_rows (ascii ''why'') 3)) = 3 \<and>
   length (sr_distances (search steady_create listing_query five_rows (ascii ''why'') 3)) = 3 \<and>
   get_embedding down_create (ascii ''why'') = [] \<and>
   search down_create listing_query five_rows (ascii ''why'') 3 = empty_search"
proof -
  have docs: "length (sr_documents (search steady_create listing_query five_rows (ascii ''why'') 3)) = 3"
    by (simp add: search_def get_embedding_def steady_create_def listing_query_def
        first_or_empty_def five_rows_def Let_def)
  have h: "get_embedding down_create (ascii ''why'') = []"
    by (simp add: get_embedding_def down_create_def)
  from search_lists_parallel
    [OF answers_parallel_listing, of steady_create five_rows "ascii ''why''" 3] docs
  have lens:
    "length (sr_metadatas (search steady_create listing_query five_rows (ascii ''why'') 3)) = 3"
    "length (sr_distances (search steady_create listing_query five_rows (ascii ''why'') 3)) = 3"
    by simp_all
  from search_lists_parallel
    [OF answers_parallel_listing, of down_create five_rows "ascii ''why''" 3] h
  have "search down_create listing_query five_rows (ascii ''why'') 3 = empty_search"
    by simp
  with docs lens h answers_parallel_listing show ?thesis
    by simp
qed

section \<open>Properties of the RAG engine\<close>

subsection \<open>Sources\<close>

lemma remdups_drop_known: "s \<in> set ys \<Longrightarrow> remdups (xs @ s # ys) = remdups (xs @ ys)"
  by (induction xs) auto

lemma sources_loop_first_seen:
  "distinct sources \<Longrightarrow>
   sources_loop docs sources = rev (remdups (rev (sources @ map source_of docs)))"
proof (induction docs arbitrary: sources)
  case Nil
  then show ?case by (simp add: distinct_remdups_id)
next
  case (Cons doc rest)
  show ?case
  proof (cases "source_of doc \<in> set sources")
    case True
    then have "remdups (rev (map source_of rest) @ source_of doc # rev sources) =
               remdups (rev (map source_of rest) @ rev sources)"
      by (intro remdups_drop_known) simp
    then show ?thesis
      using True Cons.IH [OF Cons.prems] by simp
  next
    case False
    then have "distinct (sources @ [source_of doc])"
      using Cons.prems by simp
    from Cons.IH [OF this] show ?thesis
      using False by simp
  qed
qed

text \<open>
  Claim C2, as amended: when the chat model replies, the citation list is built from all
  the results supplied, whether or not the character budget kept their blocks in the
  context: it holds each tuple (file_name, type, rounded score) of the results once, in
  the order of first occurrence. When the chat model fails, the citation list is empty.
\<close>

theorem sources_cover_all_results:
  "(\<not> isl (chat system_prompt (user_prompt (build_context context_documents 4000) query) max_tokens) \<longrightarrow>
      a_sources (generate_answer chat query context_documents max_tokens) =
        rev (remdups (rev (map source_of context_documents))) \<and>
      distinct (a_sources (generate_answer chat query context_documents max_tokens)) \<and>
      set (a_sources (generate_answer chat query context_documents max_tokens)) =
        source_of ` set context_documents) \<and>
   (isl (chat system_prompt (user_prompt (build_context context_documents 4000) query) max_tokens) \<longrightarrow>
      a_sources (generate_answer chat query context_documents max_tokens) = [])"
proof (cases "chat system_prompt (user_prompt (build_context context_documents 4000) query) max_tokens")
  case (Inl e)
  then show ?thesis
    by (simp add: generate_answer_def Let_def)
next
  case (Inr reply)
  then have "a_sources (generate_answer chat query context_documents max_tokens) =
          sources_loop context_documents []"
    by (simp add: generate_answer_def Let_def)
  also have "\<dots> = rev (remdups (rev (map source_of context_documents)))"
    using sources_loop_first_seen [of "[]" context_documents] by simp
  finally show ?thesis
    using Inr by simp
qed

lemma str_nat_digit: "n < 10 \<Longrightarrow> str_nat n = [48 + n]"
  by (simp add: str_nat.simps)

lemma round_small: "py_round3 (9 / 10) = 9 / 10"
  by (simp add: py_round3_def Let_def)

lemma round_big: "py_round3 (4 / 5) = 4 / 5"
  by (simp add: py_round3_def Let_def)

lemma source_small:
  "source_of small_doc =
     \<lparr>s_file_name = PyStr (ascii ''a.docx''), s_type = PyStr (ascii ''text''), s_score = 9 / 10\<rparr>"
  by (simp add: source_of_def small_doc_def dict_get_def round_small ascii_def)

lemma source_big:
  "source_of big_doc =
     \<lparr>s_file_name = PyStr (ascii ''b.docx''), s_type = PyStr (ascii ''text''), s_score = 4 / 5\<rparr>"
  by (simp add: source_of_def big_doc_def dict_get_def round_big ascii_def)

text \<open>
  Claim C2, as amended, on three results, the third equal to the first: with a chat model
  that replies, two citations in first-seen order, the second for a result of 4000
  characters; with a chat model that is down, none.
\<close>

theorem sources_cover_all_results_witness:
  "\<not> isl (ok_chat system_prompt
            (user_prompt (build_context [small_doc, big_doc, small_doc] 4000) (ascii ''why'')) 1000) \<and>
   a_sources (generate_answer ok_chat (ascii ''why'') [small_doc, big_doc, small_doc] 1000) =
     [\<lparr>s_file_name = PyStr (ascii ''a.docx''), s_type = PyStr (ascii ''text''), s_score = 9 / 10\<rparr>,
      \<lparr>s_file_name = PyStr (ascii ''b.docx''), s_type = PyStr (ascii ''text''), s_score = 4 / 5\<rparr>] \<and>
   isl (down_chat system_prompt
          (user_prompt (build_context [small_doc, big_doc, small_doc] 4000) (ascii ''why'')) 1000) \<and>
   a_sources (generate_answer down_chat (ascii ''why'') [small_doc, big_doc, small_doc] 1000) = []"
proof -
  have h1: "\<not> isl (ok_chat system_prompt
             (user_prompt (build_context [small_doc, big_doc, small_doc] 4000) (ascii ''why'')) 1000)"
    by (simp add: ok_chat_def)
  have h2: "isl (down_chat system_prompt
             (user_prompt (build_context [small_doc, big_doc, small_doc] 4000) (ascii ''why'')) 1000)"
    by (simp add: down_chat_def)
  from sources_cover_all_results
      [of ok_chat "[small_doc, big_doc, small_doc]" "ascii ''why''" 1000] h1
  have "a_sources (generate_answer ok_chat (ascii ''why'') [small_doc, big_doc, small_doc] 1000) =
          rev (remdups (rev (map source_of [small_doc, big_doc, small_doc])))"
    by blast
  then have ok: "a_sources (generate_answer ok_chat (ascii ''why'') [small_doc, big_doc, small_doc] 1000) =
     [\<lparr>s_file_name = PyStr (ascii ''a.docx''), s_type = PyStr (ascii ''text''), s_score = 9 / 10\<rparr>,
      \<lparr>s_file_name = PyStr (ascii ''b.docx''), s_type = PyStr (ascii ''text''), s_score = 4 / 5\<rparr>]"
    by (simp add: source_small source_big ascii_def)
  from sources_cover_all_results
      [of down_chat "[small_doc, big_doc, small_doc]" "ascii ''why''" 1000] h2
  have "a_sources (generate_answer down_chat (ascii ''why'') [small_doc, big_doc, small_doc] 1000) = []"
    by blast
  with h1 h2 ok show ?thesis
    by simp
qed

lemma length_item_small: "length (context_item 0 small_doc) = 28"
  by (simp add: context_item_def small_doc_def dict_get_def Let_def str_nat_digit ascii_def)

lemma length_item_big: "length (context_item (Suc 0) big_doc) = 4016"
  by (simp add: context_item_def big_doc_def dict_get_def Let_def str_nat_digit ascii_def)

text \<open>
  Claim C2 as stated fails: of the results \<open>small_doc\<close> and \<open>big_doc\<close> only the block of
  the first fits the budget of 4000 characters, and the citation list still holds the
  tuple of the second, which is the tuple of no result kept in the context.
\<close>

theorem dropped_result_is_cited:
  "context_parts [small_doc, big_doc] 4000 = [context_item 0 small_doc] \<and>
   source_of big_doc \<in>
     set (a_sources (generate_answer ok_chat (ascii ''why'') [small_doc, big_doc] 1000)) \<and>
   source_of big_doc \<notin>
     source_of ` set (take (length (context_parts [small_doc, big_doc] 4000)) [small_doc, big_doc])"
proof -
  have parts: "context_parts [small_doc, big_doc] 4000 = [context_item 0 small_doc]"
    by (simp add: context_parts_def length_item_small length_item_big)
  have cited: "a_sources (generate_answer ok_chat (ascii ''why'') [small_doc, big_doc] 1000) =
          [source_of small_doc, source_of big_doc]"
    by (simp add: generate_answer_def ok_chat_def Let_def source_small source_big ascii_def)
  have "source_of big_doc \<noteq> source_of small_doc"
    by (simp add: source_small source_big ascii_def)
  then show ?thesis
    by (simp add: parts cited)
qed

subsection \<open>The query pipeline\<close>

text \<open>
  Claim C9: a result of \<open>RAGEngine.query\<close> holds at most 3 entries under
  \<open>retrieved_docs\<close>, the first 3 of the retrieved documents, while answer and sources
  are built from all of them.
\<close>

theorem query_returns_three:
  assumes "RAGEngine_query create coll_query chat collection query top_k max_tokens = Inr result"
  shows "length (q_retrieved_docs result) \<le> 3 \<and>
         (\<exists>retrieved_docs.
            retrieve_relevant_documents create coll_query collection query top_k = Inr retrieved_docs \<and>
            q_retrieved_docs result = take 3 retrieved_docs \<and>
            (retrieved_docs \<noteq> [] \<longrightarrow>
               q_sources result =
                 a_sources (generate_answer chat query retrieved_docs max_tokens)))"
proof (cases "retrieve_relevant_documents create coll_query collection query top_k")
  case (Inl e)
  with assms show ?thesis by (simp add: RAGEngine_query_def)
next
  case (Inr retrieved_docs)
  have "slice retrieved_docs 0 3 = take 3 retrieved_docs"
    by (simp add: slice_def adjust_def min_def)
  with assms Inr show ?thesis
    by (auto simp: RAGEngine_query_def Let_def split: if_splits)
qed

lemma round_three_quarters: "py_round3 (1 - 1 / 4) = 3 / 4"
  by (simp add: py_round3_def Let_def)

text \<open>Claim C9 with \<open>top_k = 5\<close> over five stored items: 5 sources, 3 retrieved documents.\<close>

theorem query_returns_three_witness:
  "map_sum id (\<lambda>r. (length (q_sources r), length (q_retrieved_docs r)))
     (RAGEngine_query steady_create listing_query ok_chat five_rows (ascii ''why'') 5 1000)
   = Inr (5, 3)"
proof -
  define docs where
    "docs = map (\<lambda>r. \<lparr>r_text = row_text r, r_metadata = row_metadata r, r_score = 1 - 1 / 4\<rparr>) five_rows"
  have run: "retrieve_relevant_documents steady_create listing_query five_rows (ascii ''why'') 5 =
    Inr docs"
    by (simp add: retrieve_relevant_documents_def search_def get_embedding_def steady_create_def
        listing_query_def first_or_empty_def five_rows_def Let_def docs_def)
  have ne: "docs \<noteq> []"
    by (simp add: docs_def five_rows_def)
  obtain result where
    r: "RAGEngine_query steady_create listing_query ok_chat five_rows (ascii ''why'') 5 1000 = Inr result"
    by (simp add: RAGEngine_query_def run ne Let_def)
  from query_returns_three [OF r] run ne have
    "q_retrieved_docs result = take 3 docs"
    "q_sources result = a_sources (generate_answer ok_chat (ascii ''why'') docs 1000)"
    by auto
  then have "length (q_retrieved_docs result) = 3" "length (q_sources result) = 5"
    by (simp_all add: docs_def five_rows_def stored_def generate_answer_def ok_chat_def Let_def
        source_of_def dict_get_def round_three_quarters ascii_def)
  then show ?thesis
    using r by simp
qed

section \<open>Properties of the indexer\<close>


lemma length_chunk_items: "length (chunk_items doc i chunks) = length chunks"
  by (induction chunks arbitrary: i) simp_all


lemma length_text_documents:
  "length (text_documents processed_docs) = sum_list (map (\<lambda>doc. length (pd_chunks doc)) processed_docs)"
  by (simp add: text_documents_def length_concat comp_def length_chunk_items)











end
